theory Spec2Isabelle
  imports Main "HOL-Library.Sublist"
begin

section \<open>Python strings\<close>

text \<open>
  A Python \<open>str\<close> is modelled as a \<open>string\<close> (a list of characters). The operations
  below are the ones \<open>links/utils.py\<close> and \<open>links/services.py\<close> call on strings.
\<close>

definition ascii_lowercase :: string where
  "ascii_lowercase = ''abcdefghijklmnopqrstuvwxyz''"

definition ascii_uppercase :: string where
  "ascii_uppercase = ''ABCDEFGHIJKLMNOPQRSTUVWXYZ''"

definition digits :: string where
  "digits = ''0123456789''"

definition ascii_letters :: string where
  "ascii_letters = ascii_lowercase @ ascii_uppercase"

text \<open>
  \<open>str.lower()\<close>: the letters A-Z go to a-z, every other character of the model's alphabet
  is left as it is.
\<close>

definition lower_char :: "char \<Rightarrow> char" where
  "lower_char c =
     (case map_of (zip ascii_uppercase ascii_lowercase) c of Some d \<Rightarrow> d | None \<Rightarrow> c)"

definition lower :: "string \<Rightarrow> string" where
  "lower s = map lower_char s"

text \<open>\<open>sub in s\<close>: \<open>sub\<close> occurs in \<open>s\<close> as a contiguous run of characters.\<close>

fun py_in :: "string \<Rightarrow> string \<Rightarrow> bool" where
  "py_in sub [] = (sub = [])"
| "py_in sub (c # cs) = (prefix sub (c # cs) \<or> py_in sub cs)"

text \<open>\<open>s.startswith((p1, p2))\<close> with a tuple of two prefixes.\<close>

definition startswith2 :: "string \<Rightarrow> string \<Rightarrow> string \<Rightarrow> bool" where
  "startswith2 s p1 p2 = (prefix p1 s \<or> prefix p2 s)"

text \<open>
  \<open>s.split(sep)\<close> for a one-character separator. The result is never empty:
  \<open>''''.split('','')\<close> is the list holding the empty string.
\<close>

fun split :: "char \<Rightarrow> string \<Rightarrow> string list" where
  "split sep [] = [[]]"
| "split sep (c # cs) =
     (if c = sep then [] # split sep cs
      else (let ws = split sep cs in (c # hd ws) # tl ws))"

text \<open>
  \<open>s.strip()\<close> removes leading and trailing whitespace. The whitespace characters of
  \<open>str.isspace\<close> below code point 256 are listed.
\<close>

definition whitespace :: "char list" where
  "whitespace = [CHR 0x09, CHR 0x0A, CHR 0x0B, CHR 0x0C, CHR 0x0D,
                 CHR 0x1C, CHR 0x1D, CHR 0x1E, CHR 0x1F, CHR 0x20, CHR 0x85, CHR 0xA0]"

definition isspace :: "char \<Rightarrow> bool" where
  "isspace c = (c \<in> set whitespace)"

definition strip :: "string \<Rightarrow> string" where
  "strip s = rev (dropWhile isspace (rev (dropWhile isspace s)))"

section \<open>Errors\<close>

text \<open>
  The exceptions the modelled code raises, each with its message. A function that can raise
  returns \<open>error + 'a\<close>, with \<open>Inl\<close> for the exception.
\<close>

datatype error =
    ValidationError string
  | IntegrityError string
  | RuntimeError string

section \<open>links/utils.py\<close>

subsection \<open>The random source\<close>

text \<open>
  \<open>secrets.choice(seq)\<close> returns \<open>seq[randbelow(len(seq))]\<close>, where the operating system's
  random source decides the index. The source is modelled as the stream of its future
  outcomes, \<open>g 0\<close> being the next one; a draw below \<open>n\<close> reduces the next outcome modulo
  \<open>n\<close> and moves the stream on by one. Every index below \<open>n\<close> is the result of some stream.
\<close>

type_synonym rng = "nat \<Rightarrow> nat"

definition rng_drop :: "nat \<Rightarrow> rng \<Rightarrow> rng" where
  "rng_drop n g = (\<lambda>i. g (i + n))"

definition randbelow :: "nat \<Rightarrow> rng \<Rightarrow> nat \<times> rng" where
  "randbelow n g = (g 0 mod n, rng_drop 1 g)"

text \<open>
  \<open>secrets.choice\<close> raises \<open>IndexError\<close> on an empty sequence; its only caller passes the
  62-character alphabet.
\<close>

definition secrets_choice :: "'a list \<Rightarrow> rng \<Rightarrow> 'a \<times> rng" where
  "secrets_choice seq g = (let (i, g') = randbelow (length seq) g in (seq ! i, g'))"

subsection \<open>generate_short_code\<close>

definition alphabet :: string where
  "alphabet = ascii_letters @ digits"

fun generate_short_code :: "nat \<Rightarrow> rng \<Rightarrow> string \<times> rng" where
  "generate_short_code 0 g = ([], g)"
| "generate_short_code (Suc n) g =
     (let (c, g1) = secrets_choice alphabet g;
          (cs, g2) = generate_short_code n g1
      in (c # cs, g2))"

subsection \<open>validate_url\<close>

text \<open>
  \<open>URLValidator\<close> is Django's validator, a library outside the repository: it is a parameter
  of the model, \<open>True\<close> where the validator accepts the URL. Where it rejects, it raises
  \<open>ValidationError\<close> with Django's message.
\<close>

definition validate_url :: "(string \<Rightarrow> bool) \<Rightarrow> string \<Rightarrow> error + bool" where
  "validate_url URLValidator url =
     (if \<not> startswith2 url ''http://'' ''https://''
      then Inl (ValidationError ''URL must include http:// or https://'')
      else if py_in ''localhost'' (lower url) \<or> py_in ''127.0.0.1'' url
      then Inl (ValidationError ''Localhost URLs are not allowed'')
      else if \<not> URLValidator url
      then Inl (ValidationError ''Enter a valid URL.'')
      else Inr True)"

section \<open>links/models.py\<close>

text \<open>
  The two tables. \<open>created_at\<close> and \<open>clicked_at\<close> are set by the store's clock at insertion
  and read by no operation modelled here; they are left out. The primary key \<open>id\<close> is named
  \<open>pk\<close>, as Django also calls it.
\<close>

record ShortLink =
  pk :: nat
  original_url :: string
  short_code :: string
  clicks_count :: nat

record Click =
  click_pk :: nat
  short_link_id :: nat
  query_params :: "(string \<rightharpoonup> string) option"
  user_agent :: "string option"
  referrer :: "string option"
  ip_address :: "string option"

text \<open>
  The store: the rows of both tables in insertion order, and the next value of each
  \<open>BigAutoField\<close> sequence.
\<close>

record db =
  links :: "ShortLink list"
  clicks :: "Click list"
  next_link_pk :: nat
  next_click_pk :: nat

subsection \<open>Queries\<close>

text \<open>
  \<open>ShortLink.objects.filter(original_url=url).first()\<close>. The column is unique, so at most
  one row matches in a store that satisfies its constraints.
\<close>

definition filter_original_url_first :: "string \<Rightarrow> db \<Rightarrow> ShortLink option" where
  "filter_original_url_first url d = find (\<lambda>l. original_url l = url) (links d)"

text \<open>\<open>get_object_or_404(ShortLink, short_code=code)\<close>; \<open>None\<close> is the 404.\<close>

definition get_by_short_code :: "string \<Rightarrow> db \<Rightarrow> ShortLink option" where
  "get_by_short_code code d = find (\<lambda>l. short_code l = code) (links d)"

text \<open>
  \<open>ShortLink.objects.create(original_url=url, short_code=code)\<close>. Both columns carry
  \<open>unique=True\<close>; a violation raises \<open>IntegrityError\<close> with the message of the default
  (SQLite) backend, which names the violated column. A failed insert leaves the store as
  it was. Where both columns are violated at once the backend decides which one it reports;
  the model reports \<open>short_code\<close>, and the properties of \<open>create_link\<close> proved below
  do not depend on that choice.
\<close>

definition ShortLink_objects_create :: "string \<Rightarrow> string \<Rightarrow> db \<Rightarrow> error + (ShortLink \<times> db)" where
  "ShortLink_objects_create url code d =
     (if list_ex (\<lambda>l. short_code l = code) (links d)
      then Inl (IntegrityError ''UNIQUE constraint failed: links_shortlink.short_code'')
      else if list_ex (\<lambda>l. original_url l = url) (links d)
      then Inl (IntegrityError ''UNIQUE constraint failed: links_shortlink.original_url'')
      else (let link = \<lparr>pk = next_link_pk d, original_url = url, short_code = code,
                         clicks_count = 0\<rparr>
            in Inr (link, d\<lparr>links := links d @ [link], next_link_pk := Suc (next_link_pk d)\<rparr>)))"

text \<open>
  The column \<open>ip_address\<close> is a \<open>GenericIPAddressField\<close>. When a row is saved the field
  prepares the value: \<open>None\<close> stays \<open>None\<close>; a non-empty text that contains a colon is
  passed to \<open>clean_ipv6_address\<close>, which gives the normalised IPv6 text or raises
  \<open>ValidationError\<close>, and then the text is kept as it is; any other text is kept as it is.
  The database adapter then stores an empty text as NULL. \<open>clean_ipv6_address\<close> is Django
  library code; it is a parameter of the model, \<open>None\<close> where it raises. The other columns
  store their values as given.
\<close>

definition GenericIPAddressField_get_db_prep_value ::
  "(string \<Rightarrow> string option) \<Rightarrow> string option \<Rightarrow> string option" where
  "GenericIPAddressField_get_db_prep_value clean_ipv6_address value =
     (case value of
        None \<Rightarrow> None
      | Some v \<Rightarrow>
          (let prepared =
                 (if v \<noteq> [] \<and> py_in '':'' v
                  then (case clean_ipv6_address v of Some cleaned \<Rightarrow> cleaned | None \<Rightarrow> v)
                  else v)
           in if prepared = [] then None else Some prepared))"

text \<open>
  \<open>Click.objects.create(...)\<close>. \<open>short_link\<close> is a foreign key: the insert fails with
  \<open>IntegrityError\<close> when no ShortLink row has that primary key (the link was deleted).
  The call returns the Click object, which keeps the values it was given, and the store
  gets the row, whose \<open>ip_address\<close> is the prepared value.
\<close>

definition Click_objects_create ::
  "(string \<Rightarrow> string option) \<Rightarrow> nat \<Rightarrow> (string \<rightharpoonup> string) option \<Rightarrow> string option
     \<Rightarrow> string option \<Rightarrow> string option \<Rightarrow> db \<Rightarrow> error + (Click \<times> db)" where
  "Click_objects_create clean_ipv6_address link_pk qp ua ref ip d =
     (if \<not> list_ex (\<lambda>l. pk l = link_pk) (links d)
      then Inl (IntegrityError ''FOREIGN KEY constraint failed'')
      else (let click = \<lparr>click_pk = next_click_pk d, short_link_id = link_pk,
                          query_params = qp, user_agent = ua, referrer = ref,
                          ip_address = ip\<rparr>;
                row = click\<lparr>ip_address :=
                              GenericIPAddressField_get_db_prep_value clean_ipv6_address ip\<rparr>
            in Inr (click, d\<lparr>clicks := clicks d @ [row],
                              next_click_pk := Suc (next_click_pk d)\<rparr>)))"

text \<open>
  \<open>ShortLink.objects.filter(pk=link_pk).update(clicks_count=F("clicks_count") + 1)\<close>:
  the increment is evaluated by the store on every matching row.
\<close>

definition update_clicks_count :: "nat \<Rightarrow> db \<Rightarrow> db" where
  "update_clicks_count link_pk d =
     d\<lparr>links := map (\<lambda>l. if pk l = link_pk then l\<lparr>clicks_count := clicks_count l + 1\<rparr> else l)
                     (links d)\<rparr>"

section \<open>links/services.py: LinkShortenerService\<close>

definition max_retries :: nat where
  "max_retries = 10"

text \<open>
  The loop \<open>for attempt in range(max_retries)\<close>, with the number of attempts left as its
  first argument. Each attempt generates a code and inserts inside
  \<open>transaction.atomic()\<close>. \<open>Some r\<close> is the loop left by \<open>return\<close> or by an exception;
  \<open>None\<close> is the loop running to its end.
\<close>

fun create_link_attempts ::
  "nat \<Rightarrow> string \<Rightarrow> rng \<Rightarrow> db \<Rightarrow> (error + ShortLink) option \<times> rng \<times> db" where
  "create_link_attempts 0 url g d = (None, g, d)"
| "create_link_attempts (Suc n) url g d =
     (let (code, g') = generate_short_code 6 g
      in case ShortLink_objects_create url code d of
           Inr (link, d') \<Rightarrow> (Some (Inr link), g', d')
         | Inl (IntegrityError msg) \<Rightarrow>
             if py_in ''short_code'' msg
             then create_link_attempts n url g' d
             else (Some (Inl (IntegrityError msg)), g', d)
         | Inl e \<Rightarrow> (Some (Inl e), g', d))"

text \<open>
  \<open>create_link\<close> returns its result, the random source as it leaves it, and the store.
  Both \<open>except\<close> clauses log and re-raise, so every exception reaches the caller.
\<close>

definition create_link ::
  "(string \<Rightarrow> bool) \<Rightarrow> string \<Rightarrow> rng \<Rightarrow> db \<Rightarrow> (error + ShortLink) \<times> rng \<times> db" where
  "create_link URLValidator url g d =
     (case validate_url URLValidator url of
        Inl e \<Rightarrow> (Inl e, g, d)
      | Inr _ \<Rightarrow>
         (case filter_original_url_first url d of
            Some existing_link \<Rightarrow> (Inr existing_link, g, d)
          | None \<Rightarrow>
             (case create_link_attempts max_retries url g d of
                (Some r, g', d') \<Rightarrow> (r, g', d')
              | (None, g', d') \<Rightarrow>
                  (Inl (RuntimeError ''Failed to generate unique short code after 10 attempts''),
                   g', d'))))"

section \<open>links/services.py: ClickTrackerService\<close>

subsection \<open>The request\<close>

text \<open>
  \<open>request.GET\<close> is a \<open>QueryDict\<close>: Django appends to it every key/value pair of the query
  string, in order, and a key may occur several times. It is modelled as the list of those
  pairs. \<open>request.META\<close> is a dictionary of strings.
\<close>

type_synonym QueryDict = "(string \<times> string) list"

record request =
  GET :: QueryDict
  META :: "string \<rightharpoonup> string"

text \<open>\<open>q[key]\<close> is the last value given for the key; \<open>None\<close> is the \<open>KeyError\<close>.\<close>

definition QueryDict_getitem :: "QueryDict \<Rightarrow> string \<Rightarrow> string option" where
  "QueryDict_getitem q k =
     (case filter (\<lambda>p. fst p = k) q of [] \<Rightarrow> None | p # ps \<Rightarrow> Some (snd (last (p # ps))))"

text \<open>\<open>q.items()\<close> yields \<open>(key, q[key])\<close> for every key of the dictionary.\<close>

definition QueryDict_items :: "QueryDict \<Rightarrow> (string \<times> string) list" where
  "QueryDict_items q =
     List.map_filter (\<lambda>k. map_option (Pair k) (QueryDict_getitem q k)) (remdups (map fst q))"

text \<open>\<open>dict(pairs)\<close> stores the pairs in order; a later pair replaces an earlier one.\<close>

definition py_dict :: "('k \<times> 'v) list \<Rightarrow> ('k \<rightharpoonup> 'v)" where
  "py_dict items = foldl (\<lambda>m (k, v). m(k \<mapsto> v)) Map.empty items"

subsection \<open>_extract_metadata\<close>

text \<open>
  The metadata dictionary has the keys \<open>query_params\<close> (only when the request has query
  parameters), \<open>user_agent\<close>, \<open>referrer\<close> and \<open>ip_address\<close>; it is read with
  \<open>metadata.get(key)\<close> only, which gives \<open>None\<close> for a missing key. It is modelled as a
  record of optional values.
\<close>

record metadata =
  md_query_params :: "(string \<rightharpoonup> string) option"
  md_user_agent :: "string option"
  md_referrer :: "string option"
  md_ip_address :: "string option"

definition extract_metadata :: "request \<Rightarrow> metadata" where
  "extract_metadata req =
     \<lparr>md_query_params =
        (if GET req \<noteq> [] then Some (py_dict (QueryDict_items (GET req))) else None),
      md_user_agent = META req ''HTTP_USER_AGENT'',
      md_referrer = META req ''HTTP_REFERER'',
      md_ip_address =
        (case META req ''HTTP_X_FORWARDED_FOR'' of
           None \<Rightarrow> META req ''REMOTE_ADDR''
         | Some x_forwarded_for \<Rightarrow>
             if x_forwarded_for \<noteq> []
             then Some (strip (hd (split CHR '','' x_forwarded_for)))
             else META req ''REMOTE_ADDR'')\<rparr>"

subsection \<open>record_click\<close>

text \<open>
  The body of the \<open>try\<close> block. The insert and the increment run inside
  \<open>transaction.atomic()\<close>: when one of them raises, the block's writes are rolled back,
  so a failure carries the exception only and the caller keeps the store it had.
\<close>

definition record_click_try ::
  "(string \<Rightarrow> string option) \<Rightarrow> ShortLink \<Rightarrow> request \<Rightarrow> db \<Rightarrow> error + (Click \<times> db)" where
  "record_click_try clean_ipv6_address short_link req d =
     (let md = extract_metadata req
      in case Click_objects_create clean_ipv6_address (pk short_link) (md_query_params md)
                (md_user_agent md) (md_referrer md) (md_ip_address md) d of
           Inl e \<Rightarrow> Inl e
         | Inr (click, d1) \<Rightarrow> Inr (click, update_clicks_count (pk short_link) d1))"

text \<open>
  \<open>record_click\<close> with its \<open>except Exception\<close> clause, which logs and returns \<open>None\<close>.
  The result type keeps the exception case, so that not raising is a property to prove.
\<close>

definition record_click ::
  "(string \<Rightarrow> string option) \<Rightarrow> ShortLink \<Rightarrow> request \<Rightarrow> db
     \<Rightarrow> error + (Click option \<times> db)" where
  "record_click clean_ipv6_address short_link req d =
     (case record_click_try clean_ipv6_address short_link req d of
        Inr (click, d') \<Rightarrow> Inr (Some click, d')
      | Inl e \<Rightarrow> Inr (None, d))"

section \<open>links/views.py: RedirectView\<close>

datatype response = Http404 | HttpResponseRedirect string

definition RedirectView_get ::
  "(string \<Rightarrow> string option) \<Rightarrow> request \<Rightarrow> string \<Rightarrow> db \<Rightarrow> response \<times> db" where
  "RedirectView_get clean_ipv6_address req code d =
     (case get_by_short_code code d of
        None \<Rightarrow> (Http404, d)
      | Some short_link \<Rightarrow>
          (case record_click clean_ipv6_address short_link req d of
             Inr (_, d') \<Rightarrow> (HttpResponseRedirect (original_url short_link), d')
           | Inl e \<Rightarrow> (HttpResponseRedirect (original_url short_link), d)))"

section \<open>Notions used to state the properties\<close>

text \<open>
  The code that attempt number \<open>j\<close> (counted from 0) of the retry loop generates: each
  attempt draws six characters, so attempt \<open>j\<close> reads the outcomes \<open>6 * j\<close> to
  \<open>6 * j + 5\<close> of the random source, and no two attempts share an outcome.
\<close>

definition nth_code :: "rng \<Rightarrow> nat \<Rightarrow> string" where
  "nth_code g j = fst (generate_short_code 6 (rng_drop (6 * j) g))"

definition code_taken :: "db \<Rightarrow> string \<Rightarrow> bool" where
  "code_taken d code = list_ex (\<lambda>l. short_code l = code) (links d)"

definition url_taken :: "db \<Rightarrow> string \<Rightarrow> bool" where
  "url_taken d url = list_ex (\<lambda>l. original_url l = url) (links d)"

text \<open>The row a successful insert of \<open>url\<close> under \<open>code\<close> creates, and the store after it.\<close>

definition new_link :: "db \<Rightarrow> string \<Rightarrow> string \<Rightarrow> ShortLink" where
  "new_link d url code =
     \<lparr>pk = next_link_pk d, original_url = url, short_code = code, clicks_count = 0\<rparr>"

definition with_link :: "db \<Rightarrow> ShortLink \<Rightarrow> db" where
  "with_link d link = d\<lparr>links := links d @ [link], next_link_pk := Suc (next_link_pk d)\<rparr>"

text \<open>
  \<open>create_link\<close> with a concurrent writer: requests run concurrently and share the store
  only, so another request may commit between the lookup of line 47 and the first insert of
  line 65. \<open>other\<close> is what it commits. The code is that of \<open>create_link\<close>.
\<close>

definition create_link_interleaved ::
  "(string \<Rightarrow> bool) \<Rightarrow> string \<Rightarrow> rng \<Rightarrow> (db \<Rightarrow> db) \<Rightarrow> db
     \<Rightarrow> (error + ShortLink) \<times> rng \<times> db" where
  "create_link_interleaved URLValidator url g other d =
     (case validate_url URLValidator url of
        Inl e \<Rightarrow> (Inl e, g, d)
      | Inr _ \<Rightarrow>
         (case filter_original_url_first url d of
            Some existing_link \<Rightarrow> (Inr existing_link, g, d)
          | None \<Rightarrow>
             (case create_link_attempts max_retries url g (other d) of
                (Some r, g', d') \<Rightarrow> (r, g', d')
              | (None, g', d') \<Rightarrow>
                  (Inl (RuntimeError ''Failed to generate unique short code after 10 attempts''),
                   g', d'))))"

text \<open>
  The counter of every link equals the number of Click rows that reference the link.
\<close>

definition clicks_of :: "db \<Rightarrow> nat \<Rightarrow> Click list" where
  "clicks_of d link_pk = filter (\<lambda>c. short_link_id c = link_pk) (clicks d)"

definition counters_consistent :: "db \<Rightarrow> bool" where
  "counters_consistent d = list_all (\<lambda>l. clicks_count l = length (clicks_of d (pk l))) (links d)"

text \<open>
  The Click object a successful \<open>record_click\<close> returns and the row it stores, whether the
  link is in the store (the foreign key of the Click row holds), the Click a call returns,
  if any, and the row a call stores, if any (the last row of the table after the call).
\<close>

definition click_of :: "ShortLink \<Rightarrow> request \<Rightarrow> db \<Rightarrow> Click" where
  "click_of short_link req d =
     \<lparr>click_pk = next_click_pk d, short_link_id = pk short_link,
      query_params = md_query_params (extract_metadata req),
      user_agent = md_user_agent (extract_metadata req),
      referrer = md_referrer (extract_metadata req),
      ip_address = md_ip_address (extract_metadata req)\<rparr>"

definition row_of :: "(string \<Rightarrow> string option) \<Rightarrow> ShortLink \<Rightarrow> request \<Rightarrow> db \<Rightarrow> Click" where
  "row_of clean_ipv6_address short_link req d =
     (click_of short_link req d)
       \<lparr>ip_address := GenericIPAddressField_get_db_prep_value clean_ipv6_address
                         (md_ip_address (extract_metadata req))\<rparr>"

definition link_present :: "db \<Rightarrow> ShortLink \<Rightarrow> bool" where
  "link_present d short_link = list_ex (\<lambda>l. pk l = pk short_link) (links d)"

definition recorded_click ::
  "(string \<Rightarrow> string option) \<Rightarrow> ShortLink \<Rightarrow> request \<Rightarrow> db \<Rightarrow> Click option" where
  "recorded_click clean_ipv6_address short_link req d =
     (case record_click clean_ipv6_address short_link req d of
        Inr (Some click, _) \<Rightarrow> Some click
      | _ \<Rightarrow> None)"

definition stored_click ::
  "(string \<Rightarrow> string option) \<Rightarrow> ShortLink \<Rightarrow> request \<Rightarrow> db \<Rightarrow> Click option" where
  "stored_click clean_ipv6_address short_link req d =
     (case record_click clean_ipv6_address short_link req d of
        Inr (Some click, d') \<Rightarrow> (case rev (clicks d') of [] \<Rightarrow> None | row # _ \<Rightarrow> Some row)
      | _ \<Rightarrow> None)"

section \<open>Example stores and requests\<close>

text \<open>Concrete inputs at which the theorems below are evaluated.\<close>

definition empty_db :: db where
  "empty_db = \<lparr>links = [], clicks = [], next_link_pk = 1, next_click_pk = 1\<rparr>"

definition accept_all :: "string \<Rightarrow> bool" where
  "accept_all url = True"

definition counting_rng :: rng where
  "counting_rng = (\<lambda>i. 7 * i + 3)"

definition url_a :: string where
  "url_a = ''https://example.com/a''"

definition link_a :: ShortLink where
  "link_a = \<lparr>pk = 1, original_url = ''https://example.com/a'', short_code = ''dkryFM'',
              clicks_count = 0\<rparr>"

definition db_a :: db where
  "db_a = \<lparr>links = [link_a], clicks = [], next_link_pk = 2, next_click_pk = 1\<rparr>"

definition zero_rng :: rng where
  "zero_rng = (\<lambda>i. 0)"





text \<open>
  Requests: one with a query parameter, a referrer and a peer address; one that came through
  a proxy; one whose forwarded-for header is present and empty; one whose query string gives
  a key twice.
\<close>

definition req_click :: request where
  "req_click = \<lparr>GET = [(''utm_source'', ''x'')],
                 META = [''HTTP_REFERER'' \<mapsto> ''https://ref.example'',
                         ''REMOTE_ADDR'' \<mapsto> ''203.0.113.7'']\<rparr>"

definition req_proxy :: request where
  "req_proxy = \<lparr>GET = [],
                 META = [''HTTP_X_FORWARDED_FOR'' \<mapsto> '' 203.0.113.7 , 10.0.0.1'',
                         ''REMOTE_ADDR'' \<mapsto> ''10.0.0.9'']\<rparr>"


definition req_dup :: request where
  "req_dup = \<lparr>GET = [(''a'', ''1''), (''a'', ''2'')], META = Map.empty\<rparr>"


definition req_ipv6 :: request where
  "req_ipv6 = \<lparr>GET = [],
                META = [''HTTP_X_FORWARDED_FOR'' \<mapsto> ''2001:0db8:0000:0000:0000:0000:0000:0001'',
                        ''REMOTE_ADDR'' \<mapsto> ''10.0.0.9'']\<rparr>"

definition clean_ipv6_example :: "string \<Rightarrow> string option" where
  "clean_ipv6_example s =
     map_of [(''2001:0db8:0000:0000:0000:0000:0000:0001'', ''2001:db8::1''),
             (''2001:db8::1'', ''2001:db8::1'')] s"

section \<open>Auxiliary facts\<close>

lemmas string_consts = ascii_lowercase_def ascii_uppercase_def digits_def ascii_letters_def

lemmas lower_eval = lower_def lower_char_def string_consts

lemma py_in_iff: "py_in sub s \<longleftrightarrow> (\<exists>pre post. s = pre @ sub @ post)"
proof -
  have "py_in sub s = sublist sub s"
    by (induction s) (auto simp: sublist_Cons_right)
  then show ?thesis by (simp add: sublist_def)
qed

lemma lower_append: "lower (a @ b) = lower a @ lower b"
  by (simp add: lower_def)

lemma py_in_part: "py_in sub h \<Longrightarrow> py_in sub (a @ h @ b)"
  unfolding py_in_iff by (metis append.assoc)

lemma length_alphabet: "length alphabet = 62"
  by (simp add: alphabet_def string_consts)

lemma rng_drop_drop: "rng_drop m (rng_drop n g) = rng_drop (n + m) g"
  by (simp add: rng_drop_def fun_eq_iff ac_simps)

lemma rng_drop_0: "rng_drop 0 g = g"
  by (simp add: rng_drop_def)

lemma secrets_choice_alphabet:
  "secrets_choice alphabet g = (alphabet ! (g 0 mod 62), rng_drop 1 g)"
  by (simp add: secrets_choice_def randbelow_def length_alphabet)

lemma generate_short_code_Suc:
  "generate_short_code (Suc n) g =
     (alphabet ! (g 0 mod 62) # fst (generate_short_code n (rng_drop 1 g)),
      snd (generate_short_code n (rng_drop 1 g)))"
  by (simp add: secrets_choice_alphabet split_beta)

lemma generate_short_code_eq:
  "generate_short_code n g = (map (\<lambda>i. alphabet ! (g i mod 62)) [0..<n], rng_drop n g)"
proof (induction n arbitrary: g)
  case 0
  show ?case by (simp add: rng_drop_0)
next
  case (Suc n)
  have m: "map (\<lambda>i. alphabet ! (g i mod 62)) [0..<Suc n]
        = alphabet ! (g 0 mod 62) # map (\<lambda>i. alphabet ! (rng_drop 1 g i mod 62)) [0..<n]"
    unfolding map_upt_Suc by (simp add: rng_drop_def)
  have d: "rng_drop n (rng_drop 1 g) = rng_drop (Suc n) g"
    by (simp add: rng_drop_drop)
  show ?case
    unfolding generate_short_code_Suc Suc.IH m d by simp
qed

subsection \<open>The retry loop\<close>

lemma short_code_msg: "py_in ''short_code'' ''UNIQUE constraint failed: links_shortlink.short_code''"
  by simp


lemma nth_code_0: "fst (generate_short_code 6 g) = nth_code g 0"
  by (simp add: nth_code_def rng_drop_0)

lemma snd_generate: "snd (generate_short_code n g) = rng_drop n g"
  by (simp add: generate_short_code_eq)

lemma nth_code_shift: "nth_code (rng_drop 6 g) j = nth_code g (Suc j)"
  by (simp add: nth_code_def rng_drop_drop add.commute)

lemma create_taken:
  "code_taken d code \<Longrightarrow> ShortLink_objects_create url code d
     = Inl (IntegrityError ''UNIQUE constraint failed: links_shortlink.short_code'')"
  by (simp add: ShortLink_objects_create_def code_taken_def)


lemma create_ok:
  "\<not> code_taken d code \<Longrightarrow> \<not> url_taken d url \<Longrightarrow> ShortLink_objects_create url code d
     = Inr (new_link d url code, with_link d (new_link d url code))"
  by (simp add: ShortLink_objects_create_def code_taken_def url_taken_def new_link_def
      with_link_def Let_def)

lemma attempts_Suc:
  "create_link_attempts (Suc n) url g d =
     (case ShortLink_objects_create url (nth_code g 0) d of
        Inr (link, d') \<Rightarrow> (Some (Inr link), rng_drop 6 g, d')
      | Inl (IntegrityError msg) \<Rightarrow>
          if py_in ''short_code'' msg
          then create_link_attempts n url (rng_drop 6 g) d
          else (Some (Inl (IntegrityError msg)), rng_drop 6 g, d)
      | Inl e \<Rightarrow> (Some (Inl e), rng_drop 6 g, d))"
  by (simp add: split_beta nth_code_0 snd_generate del: generate_short_code.simps)

lemma attempts_step_taken:
  "code_taken d (nth_code g 0) \<Longrightarrow>
     create_link_attempts (Suc n) url g d = create_link_attempts n url (rng_drop 6 g) d"
  by (simp add: attempts_Suc create_taken short_code_msg
      del: create_link_attempts.simps py_in.simps)

lemma attempts_step_ok:
  "\<not> code_taken d (nth_code g 0) \<Longrightarrow> \<not> url_taken d url \<Longrightarrow>
     create_link_attempts (Suc n) url g d
       = (Some (Inr (new_link d url (nth_code g 0))), rng_drop 6 g,
          with_link d (new_link d url (nth_code g 0)))"
  by (simp add: attempts_Suc create_ok del: create_link_attempts.simps py_in.simps)


lemma attempts_collide:
  "\<forall>j<n. code_taken d (nth_code g j) \<Longrightarrow>
     create_link_attempts n url g d = (None, rng_drop (6 * n) g, d)"
proof (induction n arbitrary: g)
  case 0
  show ?case by (simp add: rng_drop_0)
next
  case (Suc n)
  from Suc.prems have c0: "code_taken d (nth_code g 0)" by simp
  from Suc.prems have "\<forall>j<n. code_taken d (nth_code (rng_drop 6 g) j)"
    by (simp add: nth_code_shift)
  then have "create_link_attempts n url (rng_drop 6 g) d = (None, rng_drop (6 * n) (rng_drop 6 g), d)"
    by (rule Suc.IH)
  then show ?case
    by (simp add: attempts_step_taken [OF c0] rng_drop_drop del: create_link_attempts.simps)
qed

text \<open>The first \<open>k\<close> codes collide and the next attempt is made: the loop is at attempt \<open>k\<close>.\<close>

lemma attempts_skip:
  "\<forall>j<k. code_taken d (nth_code g j) \<Longrightarrow>
     create_link_attempts (k + m) url g d = create_link_attempts m url (rng_drop (6 * k) g) d"
proof (induction k arbitrary: g)
  case 0
  show ?case by (simp add: rng_drop_0)
next
  case (Suc k)
  from Suc.prems have c0: "code_taken d (nth_code g 0)" by simp
  from Suc.prems have "\<forall>j<k. code_taken d (nth_code (rng_drop 6 g) j)"
    by (simp add: nth_code_shift)
  then have "create_link_attempts (k + m) url (rng_drop 6 g) d
             = create_link_attempts m url (rng_drop (6 * k) (rng_drop 6 g)) d"
    by (rule Suc.IH)
  then show ?case
    by (simp add: attempts_step_taken [OF c0] rng_drop_drop del: create_link_attempts.simps)
qed


lemma nth_code_drop: "nth_code (rng_drop (6 * k) g) 0 = nth_code g k"
  by (simp add: nth_code_def rng_drop_drop)

lemma rng_drop_6_Suc: "rng_drop 6 (rng_drop (6 * k) g) = rng_drop (6 * Suc k) g"
  unfolding rng_drop_drop by (simp add: ac_simps)

lemma attempts_success:
  assumes "k < n" and "\<forall>j<k. code_taken d (nth_code g j)"
    and "\<not> code_taken d (nth_code g k)" and "\<not> url_taken d url"
  shows "create_link_attempts n url g d
           = (Some (Inr (new_link d url (nth_code g k))), rng_drop (6 * Suc k) g,
              with_link d (new_link d url (nth_code g k)))"
proof -
  define m where "m = n - Suc k"
  have n: "n = k + Suc m"
    using \<open>k < n\<close> by (simp add: m_def)
  have s: "create_link_attempts (k + Suc m) url g d
         = create_link_attempts (Suc m) url (rng_drop (6 * k) g) d"
    using assms(2) by (rule attempts_skip)
  have c: "\<not> code_taken d (nth_code (rng_drop (6 * k) g) 0)"
    unfolding nth_code_drop by (rule assms(3))
  have "create_link_attempts (Suc m) url (rng_drop (6 * k) g) d
        = (Some (Inr (new_link d url (nth_code g k))), rng_drop (6 * Suc k) g,
              with_link d (new_link d url (nth_code g k)))"
    using attempts_step_ok [OF c assms(4), of m]
    by (simp only: nth_code_drop rng_drop_6_Suc)
  with s show ?thesis by (simp only: n)
qed


text \<open>Whichever way the loop ends, it ends after some number of colliding codes.\<close>

lemma collisions_cases:
  obtains (exhausted) "\<forall>j<n. code_taken d (nth_code g j)"
  | (free) k where "k < n" and "\<forall>j<k. code_taken d (nth_code g j)"
      and "\<not> code_taken d (nth_code g k)"
proof (cases "\<forall>j<n. code_taken d (nth_code g j)")
  case True
  then show ?thesis by (rule exhausted)
next
  case False
  define k where "k = (LEAST j. \<not> code_taken d (nth_code g j))"
  from False obtain j where j: "j < n" "\<not> code_taken d (nth_code g j)" by blast
  have nk: "\<not> code_taken d (nth_code g k)"
    unfolding k_def using j(2) by (rule LeastI)
  have "k \<le> j"
    unfolding k_def using j(2) by (rule Least_le)
  with j(1) have kn: "k < n" by simp
  have "\<forall>i<k. code_taken d (nth_code g i)"
    unfolding k_def using not_less_Least by blast
  with kn show ?thesis using nk by (rule free)
qed

lemma find_None_url: "filter_original_url_first url d = None \<longleftrightarrow> \<not> url_taken d url"
  by (auto simp: filter_original_url_first_def url_taken_def find_None_iff list_ex_iff)

lemma create_link_after_lookup:
  assumes "validate_url URLValidator url = Inr True" and "filter_original_url_first url d = None"
  shows "create_link URLValidator url g d =
     (case create_link_attempts max_retries url g d of
        (Some r, g', d') \<Rightarrow> (r, g', d')
      | (None, g', d') \<Rightarrow>
          (Inl (RuntimeError ''Failed to generate unique short code after 10 attempts''), g', d'))"
  by (simp add: create_link_def assms)

lemma create_link_success:
  assumes "validate_url URLValidator url = Inr True" and "filter_original_url_first url d = None"
    and "k < 10" and "\<forall>j<k. code_taken d (nth_code g j)" and "\<not> code_taken d (nth_code g k)"
  shows "create_link URLValidator url g d
           = (Inr (new_link d url (nth_code g k)), rng_drop (6 * Suc k) g,
              with_link d (new_link d url (nth_code g k)))"
proof -
  have u: "\<not> url_taken d url" using assms(2) unfolding find_None_url .
  from assms(3) have k: "k < max_retries" by (simp add: max_retries_def)
  show ?thesis
    unfolding create_link_after_lookup [OF assms(1,2)] attempts_success [OF k assms(4,5) u]
    by simp
qed

lemma create_link_exhausted:
  assumes "validate_url URLValidator url = Inr True" and "filter_original_url_first url d = None"
    and "\<forall>j<10. code_taken d (nth_code g j)"
  shows "create_link URLValidator url g d
           = (Inl (RuntimeError ''Failed to generate unique short code after 10 attempts''),
              rng_drop 60 g, d)"
proof -
  from assms(3) have "\<forall>j<max_retries. code_taken d (nth_code g j)"
    by (simp add: max_retries_def)
  then have "create_link_attempts max_retries url g d = (None, rng_drop (6 * max_retries) g, d)"
    by (rule attempts_collide)
  then show ?thesis
    unfolding create_link_after_lookup [OF assms(1,2)] by (simp add: max_retries_def)
qed

lemma create_link_existing:
  assumes "validate_url URLValidator url = Inr True"
    and "filter_original_url_first url d = Some link"
  shows "create_link URLValidator url g d = (Inr link, g, d)"
  by (simp add: create_link_def assms)

lemma create_link_Inr_valid:
  "create_link URLValidator url g d = (Inr link, g', d') \<Longrightarrow> validate_url URLValidator url = Inr True"
  by (auto simp: create_link_def validate_url_def split: if_splits)

lemma generated_code_length: "length (nth_code g j) = 6"
  by (simp add: nth_code_def generate_short_code_eq)

lemma generated_code_chars: "set (nth_code g j) \<subseteq> set alphabet"
  by (auto simp: nth_code_def generate_short_code_eq length_alphabet)

subsection \<open>The example inputs, evaluated\<close>

lemma upt_6: "[0..<6] = [0, 1, 2, 3, 4, 5]"
  by (simp add: upt_rec)

lemma ex_code0: "nth_code counting_rng 0 = ''dkryFM''"
  by (simp add: nth_code_def generate_short_code_eq rng_drop_def counting_rng_def upt_6
      alphabet_def string_consts)


lemma ex_valid_a: "validate_url accept_all url_a = Inr True"
  by (simp add: validate_url_def startswith2_def lower_eval accept_all_def url_a_def)

lemma ex_lookup_empty: "filter_original_url_first url empty_db = None"
  by (simp add: filter_original_url_first_def empty_db_def)

lemma ex_not_taken_empty: "\<not> code_taken empty_db code"
  by (simp add: code_taken_def empty_db_def)

lemma ex_new_link_a: "new_link empty_db url_a ''dkryFM'' = link_a"
  by (simp add: new_link_def empty_db_def link_a_def url_a_def)

lemma ex_with_link_a: "with_link empty_db link_a = db_a"
  by (simp add: with_link_def empty_db_def db_a_def)

lemma ex_create_a:
  "create_link accept_all url_a counting_rng empty_db = (Inr link_a, rng_drop 6 counting_rng, db_a)"
  using create_link_success [OF ex_valid_a ex_lookup_empty, of 0 counting_rng]
  by (simp add: ex_not_taken_empty ex_code0 ex_new_link_a ex_with_link_a)

subsection \<open>Results of create_link\<close>

lemma find_append_last:
  "find P xs = None \<Longrightarrow> P x \<Longrightarrow> find P (xs @ [x]) = Some x"
  by (induction xs) (auto split: if_splits)

lemma lookup_new_link:
  assumes "filter_original_url_first url d = None"
  shows "filter_original_url_first url (with_link d (new_link d url code))
           = Some (new_link d url code)"
  using assms
  by (simp add: filter_original_url_first_def with_link_def new_link_def find_append_last)

lemma create_link_Inr_cases:
  assumes "create_link URLValidator url g d = (Inr link, g', d')"
  shows "filter_original_url_first url d' = Some link"
proof (cases "filter_original_url_first url d")
  case (Some existing)
  from assms have v: "validate_url URLValidator url = Inr True"
    by (rule create_link_Inr_valid)
  from assms create_link_existing [OF v Some, of g] Some show ?thesis by simp
next
  case None
  from assms have v: "validate_url URLValidator url = Inr True"
    by (rule create_link_Inr_valid)
  show ?thesis
  proof (cases rule: collisions_cases [of 10 d g])
    case exhausted
    from assms create_link_exhausted [OF v None exhausted] show ?thesis by simp
  next
    case (free k)
    from assms create_link_success [OF v None free] lookup_new_link [OF None]
    show ?thesis by auto
  qed
qed



lemma create_link_new_code:
  assumes "create_link URLValidator url g d = (Inr link, g', d')"
    and "filter_original_url_first url d = None"
  shows "\<exists>k<10. short_code link = nth_code g k"
proof -
  from assms(1) have v: "validate_url URLValidator url = Inr True"
    by (rule create_link_Inr_valid)
  show ?thesis
  proof (cases rule: collisions_cases [of 10 d g])
    case exhausted
    from assms(1) create_link_exhausted [OF v assms(2) exhausted] show ?thesis by simp
  next
    case (free k)
    from assms(1) create_link_success [OF v assms(2) free] have "link = new_link d url (nth_code g k)"
      by simp
    then have "short_code link = nth_code g k" by (simp add: new_link_def)
    with free(1) show ?thesis by blast
  qed
qed

subsection \<open>The concurrent writer\<close>


lemma create_link_interleaved_id: "create_link_interleaved URLValidator url g (\<lambda>d. d) d
    = create_link URLValidator url g d"
  by (simp add: create_link_interleaved_def create_link_def)





subsection \<open>Dictionaries, split and the click recorder\<close>

lemma foldl_update_map_of:
  "foldl (\<lambda>m (k, v). m(k \<mapsto> v)) m xs = m ++ map_of (rev xs)"
proof (induction xs arbitrary: m)
  case Nil
  show ?case by simp
next
  case (Cons x xs)
  obtain k v where x: "x = (k, v)" by (cases x)
  define f :: "('a \<rightharpoonup> 'b) \<Rightarrow> 'a \<times> 'b \<Rightarrow> ('a \<rightharpoonup> 'b)"
    where "f = (\<lambda>m (k, v). m(k \<mapsto> v))"
  have "foldl f m (x # xs) = foldl f (m(k \<mapsto> v)) xs"
    by (simp add: x f_def)
  also have "\<dots> = m(k \<mapsto> v) ++ map_of (rev xs)"
    unfolding f_def by (rule Cons.IH)
  also have "\<dots> = m ++ map_of (rev (x # xs))"
    by (rule ext) (simp add: x map_add_def split: option.splits)
  finally show ?case unfolding f_def .
qed

lemma py_dict_map_of: "py_dict xs = map_of (rev xs)"
  by (simp add: py_dict_def foldl_update_map_of)

lemma getitem_map_of: "QueryDict_getitem q k = map_of (rev q) k"
proof (induction q rule: rev_induct)
  case Nil
  show ?case by (simp add: QueryDict_getitem_def)
next
  case (snoc x xs)
  show ?case
  proof (cases "fst x = k")
    case True
    then show ?thesis
      by (cases "filter (\<lambda>p. fst p = k) xs") (simp_all add: QueryDict_getitem_def)
  next
    case False
    with snoc show ?thesis by (simp add: QueryDict_getitem_def)
  qed
qed

lemma items_member:
  "(k, v) \<in> set (QueryDict_items q) \<longleftrightarrow> map_of (rev q) k = Some v"
proof -
  have "(k, v) \<in> set (QueryDict_items q) \<longleftrightarrow> k \<in> fst ` set q \<and> QueryDict_getitem q k = Some v"
    by (force simp: QueryDict_items_def List.map_filter_def image_iff)
  also have "\<dots> \<longleftrightarrow> map_of (rev q) k = Some v"
    unfolding getitem_map_of
    by (metis map_of_eq_None_iff option.distinct(1) set_map set_rev)
  finally show ?thesis .
qed

lemma items_dict: "py_dict (QueryDict_items q) = map_of (rev q)"
proof
  fix k
  show "py_dict (QueryDict_items q) k = map_of (rev q) k"
  proof (cases "map_of (rev (QueryDict_items q)) k")
    case None
    then have "\<forall>v. (k, v) \<notin> set (QueryDict_items q)"
      by (metis map_of_eq_None_iff fst_conv image_eqI set_rev)
    then have "map_of (rev q) k = None"
      unfolding items_member by simp
    with None show ?thesis by (simp add: py_dict_map_of)
  next
    case (Some v)
    then have "(k, v) \<in> set (QueryDict_items q)"
      by (metis map_of_SomeD set_rev)
    then have "map_of (rev q) k = Some v"
      unfolding items_member .
    with Some show ?thesis by (simp add: py_dict_map_of)
  qed
qed

lemma graph_map_of_distinct:
  "distinct (map fst q) \<Longrightarrow> Map.graph (map_of (rev q)) = set q"
  by (auto simp: Map.graph_def distinct_rev rev_map [symmetric] dest: map_of_SomeD)

lemma split_nonempty: "split sep s \<noteq> []"
  by (induction s) (simp_all add: Let_def)

lemma hd_split: "hd (split sep s) = takeWhile (\<lambda>c. c \<noteq> sep) s"
  by (induction s) (simp_all add: Let_def)

lemma py_in_single: "py_in [c] s \<longleftrightarrow> c \<in> set s"
  by (induction s) auto

lemma prep_value_cases:
  "GenericIPAddressField_get_db_prep_value clean value =
     (case value of
        None \<Rightarrow> None
      | Some v \<Rightarrow>
          if v = [] then None
          else if CHR '':'' \<in> set v
          then (case clean v of None \<Rightarrow> Some v | Some c \<Rightarrow> if c = [] then None else Some c)
          else Some v)"
  by (simp add: GenericIPAddressField_get_db_prep_value_def Let_def py_in_single
      split: option.splits)

lemma record_click_present:
  "link_present d short_link \<Longrightarrow>
     record_click clean short_link req d
       = Inr (Some (click_of short_link req d),
              update_clicks_count (pk short_link)
                (d\<lparr>clicks := clicks d @ [row_of clean short_link req d],
                   next_click_pk := Suc (next_click_pk d)\<rparr>))"
  by (simp add: record_click_def record_click_try_def Click_objects_create_def Let_def
      click_of_def row_of_def link_present_def)

lemma record_click_try_absent:
  "\<not> link_present d short_link \<Longrightarrow>
     record_click_try clean short_link req d
       = Inl (IntegrityError ''FOREIGN KEY constraint failed'')"
  by (simp add: record_click_try_def Click_objects_create_def Let_def link_present_def)

lemma record_click_absent:
  "\<not> link_present d short_link \<Longrightarrow> record_click clean short_link req d = Inr (None, d)"
  by (simp add: record_click_def record_click_try_absent)

lemma record_click_SomeD:
  assumes "record_click clean short_link req d = Inr (Some click, d')"
  shows "link_present d short_link" and "click = click_of short_link req d"
    and "d' = update_clicks_count (pk short_link)
                (d\<lparr>clicks := clicks d @ [row_of clean short_link req d],
                   next_click_pk := Suc (next_click_pk d)\<rparr>)"
proof -
  show p: "link_present d short_link"
    using assms record_click_absent [of d short_link clean req]
    by (cases "link_present d short_link") simp_all
  from assms record_click_present [OF p, of clean req]
  show "click = click_of short_link req d" by simp
  from assms record_click_present [OF p, of clean req]
  show "d' = update_clicks_count (pk short_link)
                (d\<lparr>clicks := clicks d @ [row_of clean short_link req d],
                   next_click_pk := Suc (next_click_pk d)\<rparr>)"
    by simp
qed

lemma row_of_click:
  "row_of clean short_link req d
     = (click_of short_link req d)
         \<lparr>ip_address := GenericIPAddressField_get_db_prep_value clean
                           (ip_address (click_of short_link req d))\<rparr>"
  by (simp add: row_of_def click_of_def)

lemma clicks_after_record:
  assumes "record_click clean short_link req d = Inr (Some click, d')"
  shows "clicks d' = clicks d @ [row_of clean short_link req d]"
  unfolding record_click_SomeD(3) [OF assms] by (simp add: update_clicks_count_def)

lemma record_click_NoneD:
  assumes "record_click clean short_link req d = Inr (None, d')"
  shows "d' = d"
  using assms by (simp add: record_click_def split: sum.splits prod.splits)

lemma record_click_total: "\<exists>r d'. record_click clean short_link req d = Inr (r, d')"
  by (simp add: record_click_def split: sum.splits prod.splits)

lemma consistent_after_click:
  assumes "counters_consistent d"
  shows "counters_consistent (update_clicks_count p
           (d\<lparr>clicks := clicks d @ [c\<lparr>short_link_id := p\<rparr>], next_click_pk := n\<rparr>))"
  using assms
  by (auto simp: counters_consistent_def update_clicks_count_def clicks_of_def list_all_iff)

lemma ex_present_a: "link_present db_a link_a"
  by (simp add: link_present_def db_a_def)

lemma ex_absent_empty: "\<not> link_present empty_db short_link"
  by (simp add: link_present_def empty_db_def)

lemma ex_consistent_a: "counters_consistent db_a"
  by (simp add: counters_consistent_def clicks_of_def db_a_def link_a_def)

lemma ex_get_a: "get_by_short_code ''dkryFM'' db_a = Some link_a"
  by (simp add: get_by_short_code_def db_a_def link_a_def)

lemma recorded_click_present:
  "link_present d short_link \<Longrightarrow>
     recorded_click clean short_link req d = Some (click_of short_link req d)"
  by (simp add: recorded_click_def record_click_present)

lemma stored_click_present:
  "link_present d short_link \<Longrightarrow>
     stored_click clean short_link req d = Some (row_of clean short_link req d)"
  by (simp add: stored_click_def record_click_present update_clicks_count_def)

lemma strip_example: "strip (takeWhile (\<lambda>c. c \<noteq> CHR '','') '' 203.0.113.7 , 10.0.0.1'') = ''203.0.113.7''"
  by (simp add: strip_def isspace_def whitespace_def)

lemma strip_example_entry: "strip '' 203.0.113.7 '' = ''203.0.113.7''"
  by (simp add: strip_def isspace_def whitespace_def)


lemma ex_ip_proxy: "md_ip_address (extract_metadata req_proxy) = Some ''203.0.113.7''"
  by (simp add: extract_metadata_def req_proxy_def hd_split strip_example_entry)





lemma ex_ip_ipv6:
  "md_ip_address (extract_metadata req_ipv6) = Some ''2001:0db8:0000:0000:0000:0000:0000:0001''"
  by (simp add: extract_metadata_def req_ipv6_def hd_split strip_def isspace_def whitespace_def)

lemma ex_ip_click: "md_ip_address (extract_metadata req_click) = Some ''203.0.113.7''"
  by (simp add: extract_metadata_def req_click_def)

lemma ex_prep_v4: "GenericIPAddressField_get_db_prep_value clean (Some ''203.0.113.7'')
    = Some ''203.0.113.7''"
  by (simp add: prep_value_cases)


lemma ex_prep_v6:
  "GenericIPAddressField_get_db_prep_value clean_ipv6_example
     (Some ''2001:0db8:0000:0000:0000:0000:0000:0001'') = Some ''2001:db8::1''"
  by (simp add: prep_value_cases clean_ipv6_example_def)

lemma stored_click_row:
  assumes "record_click clean short_link req d = Inr (Some click, d')"
    and "\<exists>row. clicks d' = clicks d @ [row] \<and> f row = v"
  shows "map_option f (stored_click clean short_link req d) = Some v"
  using assms by (auto simp: stored_click_def)

lemma ex_qp_dup: "md_query_params (extract_metadata req_dup) = Some [''a'' \<mapsto> ''2'']"
  by (simp add: extract_metadata_def req_dup_def items_dict)

lemma ex_graph_dup: "Map.graph [''a'' \<mapsto> ''2''] \<noteq> set (GET req_dup)"
proof
  assume eq: "Map.graph [''a'' \<mapsto> ''2''] = set (GET req_dup)"
  have "(''a'', ''1'') \<in> set (GET req_dup)"
    by (simp add: req_dup_def)
  then have "(''a'', ''1'') \<in> Map.graph [''a'' \<mapsto> ''2'']"
    by (simp only: eq)
  then have "[''a'' \<mapsto> ''2''] ''a'' = Some ''1''"
    by (rule in_graphD)
  then show False by simp
qed

lemma dom_map_of_rev: "dom (map_of (rev q)) = fst ` set q"
  by (simp add: dom_map_of_conv_image_fst)

lemma graph_map_of_rev: "Map.graph (map_of (rev q)) \<subseteq> set q"
  by (auto simp: Map.graph_def dest: map_of_SomeD)

section \<open>Validation\<close>

text \<open>
  C10. The localhost check of \<open>validate_url\<close> looks at the whole URL string, not at the host:
  every URL that contains \<open>localhost\<close> in any letter case, or \<open>127.0.0.1\<close>, anywhere (path,
  query and fragment included) is rejected with \<open>ValidationError\<close>. The message is the
  localhost one when the URL starts with \<open>http://\<close> or \<open>https://\<close>, and the protocol one
  otherwise. So \<open>https://example.com/localhost\<close> is rejected.
\<close>

theorem validate_url_localhost_anywhere:
  assumes "(\<exists>pre post. lower url = pre @ ''localhost'' @ post)
           \<or> (\<exists>pre post. url = pre @ ''127.0.0.1'' @ post)"
  shows "validate_url URLValidator url =
           Inl (ValidationError (if startswith2 url ''http://'' ''https://''
                                 then ''Localhost URLs are not allowed''
                                 else ''URL must include http:// or https://''))"
proof -
  from assms have "py_in ''localhost'' (lower url) \<or> py_in ''127.0.0.1'' url"
    by (simp only: py_in_iff)
  then show ?thesis
    by (simp add: validate_url_def)
qed

theorem validate_url_localhost_anywhere_witness:
  "((\<exists>pre post. lower ''https://example.com/localhost'' = pre @ ''localhost'' @ post)
     \<or> (\<exists>pre post. ''https://example.com/localhost'' = pre @ ''127.0.0.1'' @ post))
   \<and> validate_url accept_all ''https://example.com/localhost''
       = Inl (ValidationError ''Localhost URLs are not allowed'')"
proof -
  have "py_in ''localhost'' (lower ''https://example.com/localhost'')"
    by (simp add: lower_eval)
  then have "\<exists>pre post. lower ''https://example.com/localhost'' = pre @ ''localhost'' @ post"
    by (simp only: py_in_iff)
  then have h: "(\<exists>pre post. lower ''https://example.com/localhost'' = pre @ ''localhost'' @ post)
     \<or> (\<exists>pre post. ''https://example.com/localhost'' = pre @ ''127.0.0.1'' @ post)"
    by (rule disjI1)
  have s: "startswith2 ''https://example.com/localhost'' ''http://'' ''https://''"
    by (simp add: startswith2_def)
  from validate_url_localhost_anywhere [OF h, of accept_all] s h show ?thesis
    by (simp only: if_True simp_thms)
qed

text \<open>
  C3. A URL that does not start with \<open>http://\<close> or \<open>https://\<close>, or one that has a part (its
  host, for one) containing \<open>localhost\<close> in any letter case or \<open>127.0.0.1\<close>, makes
  \<open>create_link\<close> fail with \<open>ValidationError\<close> and one of the two messages of
  \<open>validate_url\<close>; the store is returned as it was and no code is generated.
\<close>

theorem create_link_rejects_invalid:
  assumes "\<not> startswith2 url ''http://'' ''https://''
           \<or> (\<exists>a host b. url = a @ host @ b
                 \<and> (py_in ''localhost'' (lower host) \<or> py_in ''127.0.0.1'' host))"
  shows "\<exists>msg. msg \<in> {''URL must include http:// or https://'', ''Localhost URLs are not allowed''}
           \<and> create_link URLValidator url g d = (Inl (ValidationError msg), g, d)"
proof -
  from assms have "\<not> startswith2 url ''http://'' ''https://''
      \<or> py_in ''localhost'' (lower url) \<or> py_in ''127.0.0.1'' url"
    by (auto simp: lower_append intro: py_in_part)
  then show ?thesis
    by (auto simp: create_link_def validate_url_def)
qed

theorem create_link_rejects_invalid_witness:
  "\<not> startswith2 ''ftp://example.com'' ''http://'' ''https://''
   \<and> (\<exists>msg. msg \<in> {''URL must include http:// or https://'', ''Localhost URLs are not allowed''}
           \<and> create_link accept_all ''ftp://example.com'' counting_rng empty_db
               = (Inl (ValidationError msg), counting_rng, empty_db))
   \<and> py_in ''localhost'' (lower ''LocalHost'')
   \<and> (\<exists>msg. msg \<in> {''URL must include http:// or https://'', ''Localhost URLs are not allowed''}
           \<and> create_link accept_all (''http://'' @ ''LocalHost'' @ ''/x'') counting_rng empty_db
               = (Inl (ValidationError msg), counting_rng, empty_db))"
proof -
  have a: "\<not> startswith2 ''ftp://example.com'' ''http://'' ''https://''"
    by (simp add: startswith2_def)
  have b: "py_in ''localhost'' (lower ''LocalHost'')"
    by (simp add: lower_eval)
  have c: "\<exists>a host b. ''http://'' @ ''LocalHost'' @ ''/x'' = a @ host @ b
             \<and> (py_in ''localhost'' (lower host) \<or> py_in ''127.0.0.1'' host)"
    using b by blast
  show ?thesis
    using a b create_link_rejects_invalid [OF disjI1 [OF a], of accept_all counting_rng empty_db]
      create_link_rejects_invalid [OF disjI2 [OF c], of accept_all counting_rng empty_db]
    by (simp only: simp_thms)
qed

section \<open>Deduplication\<close>

text \<open>
  C1. Calling \<open>create_link\<close> a second time with the same URL returns the ShortLink of the
  first call: whatever the first call returned (a row that existed or one it inserted), the
  second call, on the store the first one left, returns that same row, leaves the store as
  it is (no new row) and leaves the random source as it is (no code generated).
\<close>

theorem create_link_idempotent:
  assumes "create_link URLValidator url g d = (Inr link, g1, d1)"
  shows "create_link URLValidator url g2 d1 = (Inr link, g2, d1)"
proof -
  from assms have "validate_url URLValidator url = Inr True"
    by (rule create_link_Inr_valid)
  moreover from assms have "filter_original_url_first url d1 = Some link"
    by (rule create_link_Inr_cases)
  ultimately show ?thesis
    by (rule create_link_existing)
qed

theorem create_link_idempotent_witness:
  "create_link accept_all url_a counting_rng empty_db = (Inr link_a, rng_drop 6 counting_rng, db_a)
   \<and> create_link accept_all url_a zero_rng db_a = (Inr link_a, zero_rng, db_a)"
  using create_link_idempotent [OF ex_create_a, of zero_rng] ex_create_a by simp

section \<open>Code allocation\<close>



text \<open>
  C7. Every code \<open>generate_short_code\<close> produces for length 6 has exactly 6 characters, all
  from the alphabet a-z, A-Z, 0-9, whatever the random source; and the code of a row that
  \<open>create_link\<close> inserts is the code of one of its attempts, so it has that shape.
\<close>

theorem short_code_shape:
  "alphabet = ''abcdefghijklmnopqrstuvwxyzABCDEFGHIJKLMNOPQRSTUVWXYZ0123456789''
   \<and> length (fst (generate_short_code 6 g)) = 6
   \<and> set (fst (generate_short_code 6 g)) \<subseteq> set alphabet
   \<and> (create_link URLValidator url g d = (Inr link, g', d')
        \<and> filter_original_url_first url d = None
      \<longrightarrow> (\<exists>k<10. short_code link = fst (generate_short_code 6 (rng_drop (6 * k) g)))
          \<and> length (short_code link) = 6 \<and> set (short_code link) \<subseteq> set alphabet)"
proof -
  have a: "alphabet = ''abcdefghijklmnopqrstuvwxyzABCDEFGHIJKLMNOPQRSTUVWXYZ0123456789''"
    by (simp add: alphabet_def string_consts)
  have l: "length (fst (generate_short_code 6 g)) = 6" for g
    by (simp add: generate_short_code_eq)
  have c: "set (fst (generate_short_code 6 g)) \<subseteq> set alphabet" for g
    by (auto simp: generate_short_code_eq length_alphabet)
  have n: "(\<exists>k<10. short_code link = fst (generate_short_code 6 (rng_drop (6 * k) g)))
          \<and> length (short_code link) = 6 \<and> set (short_code link) \<subseteq> set alphabet"
    if "create_link URLValidator url g d = (Inr link, g', d')"
      and "filter_original_url_first url d = None"
  proof -
    from create_link_new_code [OF that] obtain k where k: "k < 10" "short_code link = nth_code g k"
      by blast
    from k(2) have "length (short_code link) = 6" "set (short_code link) \<subseteq> set alphabet"
      by (simp_all only: generated_code_length generated_code_chars)
    with k show ?thesis unfolding nth_code_def by blast
  qed
  from a l c n show ?thesis by blast
qed

theorem short_code_shape_witness:
  "create_link accept_all url_a counting_rng empty_db = (Inr link_a, rng_drop 6 counting_rng, db_a)
   \<and> filter_original_url_first url_a empty_db = None
   \<and> short_code link_a = ''dkryFM''
   \<and> length (short_code link_a) = 6 \<and> set (short_code link_a) \<subseteq> set alphabet"
proof -
  have "short_code link_a = ''dkryFM''" by (simp add: link_a_def)
  with short_code_shape [of counting_rng accept_all url_a empty_db link_a "rng_drop 6 counting_rng" db_a]
    ex_create_a ex_lookup_empty [of url_a]
  show ?thesis by simp
qed

section \<open>The race on the original URL\<close>




section \<open>Click recording\<close>

text \<open>
  C2. A successful \<open>record_click\<close> appends exactly one Click row, which references the
  link (it is the returned Click with \<open>ip_address\<close> as the column saves it), and adds
  exactly 1 to the \<open>clicks_count\<close> of the link's row (which is in the store) and to no
  other row; both writes are in the store the call returns. So a store in which every
  counter equals the number of Click rows referencing its link is still such a store after
  the call.
\<close>

theorem record_click_counts:
  assumes "record_click clean short_link req d = Inr (Some click, d')"
  shows "clicks d' = clicks d
             @ [click\<lparr>ip_address :=
                        GenericIPAddressField_get_db_prep_value clean (ip_address click)\<rparr>]
    \<and> short_link_id click = pk short_link
    \<and> links d' = map (\<lambda>l. if pk l = pk short_link
                            then l\<lparr>clicks_count := clicks_count l + 1\<rparr> else l) (links d)
    \<and> list_ex (\<lambda>l. pk l = pk short_link) (links d)
    \<and> (counters_consistent d \<longrightarrow> counters_consistent d')"
proof -
  note r = record_click_SomeD [OF assms]
  have s: "short_link_id click = pk short_link"
    by (simp add: r(2) click_of_def)
  have "clicks d' = clicks d @ [row_of clean short_link req d]"
    using assms by (rule clicks_after_record)
  then have cl: "clicks d' = clicks d
             @ [click\<lparr>ip_address :=
                        GenericIPAddressField_get_db_prep_value clean (ip_address click)\<rparr>]"
    unfolding r(2) row_of_click .
  have c: "row_of clean short_link req d
             = (row_of clean short_link req d)\<lparr>short_link_id := pk short_link\<rparr>"
    by (simp add: row_of_def click_of_def)
  have k: "counters_consistent d'" if "counters_consistent d"
    unfolding r(3) by (subst c) (rule consistent_after_click [OF that])
  have l: "links d' = map (\<lambda>l. if pk l = pk short_link
                            then l\<lparr>clicks_count := clicks_count l + 1\<rparr> else l) (links d)"
    by (simp add: r(3) update_clicks_count_def)
  have p: "list_ex (\<lambda>l. pk l = pk short_link) (links d)"
    using r(1) by (simp add: link_present_def)
  from cl s l p k show ?thesis by blast
qed

theorem record_click_counts_witness:
  "counters_consistent db_a
   \<and> (\<exists>click d'. record_click clean_ipv6_example link_a req_click db_a = Inr (Some click, d')
         \<and> clicks d' = clicks db_a @ [click] \<and> short_link_id click = pk link_a
         \<and> map clicks_count (links d') = [1]
         \<and> counters_consistent d')"
proof -
  define d' where "d' = update_clicks_count (pk link_a)
                (db_a\<lparr>clicks := clicks db_a @ [row_of clean_ipv6_example link_a req_click db_a],
                   next_click_pk := Suc (next_click_pk db_a)\<rparr>)"
  have r: "record_click clean_ipv6_example link_a req_click db_a
             = Inr (Some (click_of link_a req_click db_a), d')"
    unfolding d'_def by (rule record_click_present [OF ex_present_a])
  have i: "ip_address (click_of link_a req_click db_a) = Some ''203.0.113.7''"
    by (simp add: click_of_def ex_ip_click)
  have e: "(click_of link_a req_click db_a)\<lparr>ip_address := Some ''203.0.113.7''\<rparr>
             = click_of link_a req_click db_a"
    using i by simp
  have m: "map clicks_count (links d') = [1]"
    using record_click_counts [OF r] by (simp add: db_a_def link_a_def)
  have "record_click clean_ipv6_example link_a req_click db_a
             = Inr (Some (click_of link_a req_click db_a), d')
         \<and> clicks d' = clicks db_a @ [click_of link_a req_click db_a]
         \<and> short_link_id (click_of link_a req_click db_a) = pk link_a
         \<and> map clicks_count (links d') = [1]
         \<and> counters_consistent d'"
    using record_click_counts [OF r] ex_consistent_a r m by (simp add: i ex_prep_v4 e)
  then have "\<exists>click d'. record_click clean_ipv6_example link_a req_click db_a
             = Inr (Some click, d')
         \<and> clicks d' = clicks db_a @ [click] \<and> short_link_id click = pk link_a
         \<and> map clicks_count (links d') = [1]
         \<and> counters_consistent d'"
    by (intro exI)
  with ex_consistent_a show ?thesis by (rule conjI)
qed

text \<open>
  C6. \<open>record_click\<close> never raises: for every link, request and store it returns a result,
  and when the result is no value the store is as it was; whatever exception the \<open>try\<close>
  block raises becomes the no-value result. The redirect view therefore answers with the
  redirect to the original URL whenever the code resolves.
\<close>

theorem record_click_never_raises:
  "(\<exists>r d'. record_click clean short_link req d = Inr (r, d') \<and> (r = None \<longrightarrow> d' = d))
   \<and> (record_click_try clean short_link req d = Inl e
        \<longrightarrow> record_click clean short_link req d = Inr (None, d))
   \<and> (get_by_short_code code d = Some short_link
        \<longrightarrow> (\<exists>d'. RedirectView_get clean req code d
                    = (HttpResponseRedirect (original_url short_link), d')))"
proof -
  obtain r d' where r: "record_click clean short_link req d = Inr (r, d')"
    using record_click_total by blast
  have "d' = d" if "r = None"
    using r that record_click_NoneD by blast
  with r have a: "\<exists>r d'. record_click clean short_link req d = Inr (r, d')
                    \<and> (r = None \<longrightarrow> d' = d)"
    by blast
  have b: "record_click clean short_link req d = Inr (None, d)"
    if "record_click_try clean short_link req d = Inl e"
    using that by (simp add: record_click_def)
  have c: "\<exists>d'. RedirectView_get clean req code d
                  = (HttpResponseRedirect (original_url short_link), d')"
    if "get_by_short_code code d = Some short_link"
    using that r by (simp add: RedirectView_get_def)
  from a b c show ?thesis by blast
qed

theorem record_click_never_raises_witness:
  "record_click_try clean_ipv6_example link_a req_click empty_db
     = Inl (IntegrityError ''FOREIGN KEY constraint failed'')
   \<and> record_click clean_ipv6_example link_a req_click empty_db = Inr (None, empty_db)
   \<and> get_by_short_code ''dkryFM'' db_a = Some link_a
   \<and> (\<exists>d'. RedirectView_get clean_ipv6_example req_click ''dkryFM'' db_a
              = (HttpResponseRedirect ''https://example.com/a'', d'))"
proof -
  have t: "record_click_try clean_ipv6_example link_a req_click empty_db
             = Inl (IntegrityError ''FOREIGN KEY constraint failed'')"
    by (rule record_click_try_absent [OF ex_absent_empty])
  have u: "original_url link_a = ''https://example.com/a''"
    by (simp add: link_a_def)
  from record_click_never_raises [of clean_ipv6_example link_a req_click empty_db
      "IntegrityError ''FOREIGN KEY constraint failed''"] t
  have "record_click clean_ipv6_example link_a req_click empty_db = Inr (None, empty_db)"
    by blast
  moreover
  from record_click_never_raises [of clean_ipv6_example link_a req_click db_a _ "''dkryFM''"]
    ex_get_a
  have "\<exists>d'. RedirectView_get clean_ipv6_example req_click ''dkryFM'' db_a
              = (HttpResponseRedirect ''https://example.com/a'', d')"
    unfolding u by blast
  ultimately show ?thesis using t ex_get_a by blast
qed




text \<open>
  C9, as stated: for a non-empty query string the stored \<open>query_params\<close> is exactly the full
  set of key/value pairs of the query string. A query string that gives a key twice refutes
  it: the pair with the first value is not stored.
\<close>

theorem query_params_all_pairs_counterexample:
  "GET req_dup = [(''a'', ''1''), (''a'', ''2'')]
   \<and> map_option query_params (recorded_click clean_ipv6_example link_a req_dup db_a)
       = Some (Some [''a'' \<mapsto> ''2''])
   \<and> map_option query_params (stored_click clean_ipv6_example link_a req_dup db_a)
       = Some (Some [''a'' \<mapsto> ''2''])
   \<and> Map.graph [''a'' \<mapsto> ''2''] \<noteq> set (GET req_dup)"
proof -
  have a: "GET req_dup = [(''a'', ''1''), (''a'', ''2'')]"
    by (simp add: req_dup_def)
  have c: "map_option query_params (recorded_click clean_ipv6_example link_a req_dup db_a)
             = Some (Some [''a'' \<mapsto> ''2''])"
    by (simp add: recorded_click_present [OF ex_present_a] click_of_def ex_qp_dup)
  have d: "map_option query_params (stored_click clean_ipv6_example link_a req_dup db_a)
             = Some (Some [''a'' \<mapsto> ''2''])"
    by (simp add: stored_click_present [OF ex_present_a] row_of_def click_of_def ex_qp_dup)
  from a c d ex_graph_dup show ?thesis by (intro conjI)
qed

text \<open>
  C9, amended: for a request with query parameters the \<open>query_params\<close> of the Click maps
  every key of the query string to the last value given for it; every stored pair is a pair
  of the query string, verbatim, and when no key is repeated the stored pairs are exactly
  all the pairs of the query string. For a request without query parameters
  \<open>query_params\<close> is absent. The stored row has the \<open>query_params\<close> of the returned Click.
\<close>

theorem click_query_params:
  assumes "record_click clean short_link req d = Inr (Some click, d')"
  shows "(GET req = [] \<longrightarrow> query_params click = None)
     \<and> (GET req \<noteq> [] \<longrightarrow>
          query_params click = Some (map_of (rev (GET req)))
          \<and> dom (map_of (rev (GET req))) = fst ` set (GET req)
          \<and> Map.graph (map_of (rev (GET req))) \<subseteq> set (GET req)
          \<and> (distinct (map fst (GET req))
               \<longrightarrow> Map.graph (map_of (rev (GET req))) = set (GET req)))
     \<and> (\<exists>row. clicks d' = clicks d @ [row] \<and> query_params row = query_params click)"
proof -
  note r = record_click_SomeD [OF assms]
  have a: "(GET req = [] \<longrightarrow> query_params click = None)
     \<and> (GET req \<noteq> [] \<longrightarrow>
          query_params click = Some (map_of (rev (GET req)))
          \<and> dom (map_of (rev (GET req))) = fst ` set (GET req)
          \<and> Map.graph (map_of (rev (GET req))) \<subseteq> set (GET req)
          \<and> (distinct (map fst (GET req))
               \<longrightarrow> Map.graph (map_of (rev (GET req))) = set (GET req)))"
    unfolding r(2)
    using dom_map_of_rev [of "GET req"] graph_map_of_rev [of "GET req"]
      graph_map_of_distinct [of "GET req"]
    by (simp add: click_of_def extract_metadata_def items_dict)
  have c: "clicks d' = clicks d @ [row_of clean short_link req d]"
    using assms by (rule clicks_after_record)
  have "query_params (row_of clean short_link req d) = query_params click"
    unfolding r(2) by (simp add: row_of_def click_of_def)
  with c have b: "\<exists>row. clicks d' = clicks d @ [row] \<and> query_params row = query_params click"
    by blast
  from conjunct1 [OF a] conjunct2 [OF a] b show ?thesis by (intro conjI)
qed

theorem click_query_params_witness:
  "(\<exists>d'. record_click clean_ipv6_example link_a req_click db_a
            = Inr (Some (click_of link_a req_click db_a), d'))
   \<and> GET req_click = [(''utm_source'', ''x'')]
   \<and> query_params (click_of link_a req_click db_a) = Some [''utm_source'' \<mapsto> ''x'']
   \<and> Map.graph [''utm_source'' \<mapsto> ''x''] = {(''utm_source'', ''x'')}
   \<and> map_option query_params (stored_click clean_ipv6_example link_a req_click db_a)
       = Some (Some [''utm_source'' \<mapsto> ''x''])
   \<and> (\<exists>d'. record_click clean_ipv6_example link_a req_proxy db_a
            = Inr (Some (click_of link_a req_proxy db_a), d'))
   \<and> GET req_proxy = []
   \<and> query_params (click_of link_a req_proxy db_a) = None"
proof -
  note rc = record_click_present [OF ex_present_a, of clean_ipv6_example req_click]
  note rp = record_click_present [OF ex_present_a, of clean_ipv6_example req_proxy]
  have g: "GET req_click = [(''utm_source'', ''x'')]" "GET req_proxy = []"
    by (simp_all add: req_click_def req_proxy_def)
  from click_query_params [OF rc]
  have a: "query_params (click_of link_a req_click db_a) = Some [''utm_source'' \<mapsto> ''x'']"
     and b: "Map.graph [''utm_source'' \<mapsto> ''x''] = {(''utm_source'', ''x'')}"
    by (simp_all add: g)
  from click_query_params [OF rc, THEN conjunct2, THEN conjunct2]
  have "\<exists>row. clicks (update_clicks_count (pk link_a)
                (db_a\<lparr>clicks := clicks db_a @ [row_of clean_ipv6_example link_a req_click db_a],
                   next_click_pk := Suc (next_click_pk db_a)\<rparr>)) = clicks db_a @ [row]
        \<and> query_params row = Some [''utm_source'' \<mapsto> ''x'']"
    by (simp add: a)
  then have s: "map_option query_params (stored_click clean_ipv6_example link_a req_click db_a)
       = Some (Some [''utm_source'' \<mapsto> ''x''])"
    by (rule stored_click_row [OF rc])
  from click_query_params [OF rp]
  have c: "query_params (click_of link_a req_proxy db_a) = None"
    by (simp add: g)
  have e: "\<exists>d'. record_click clean_ipv6_example link_a req_click db_a
            = Inr (Some (click_of link_a req_click db_a), d')"
    using rc by (rule exI)
  have f: "\<exists>d'. record_click clean_ipv6_example link_a req_proxy db_a
            = Inr (Some (click_of link_a req_proxy db_a), d')"
    using rp by (rule exI)
  from e g(1) a b s f g(2) c show ?thesis by (intro conjI)
qed

end
